theory Spec2Isabelle
  imports Complex_Main "HOL-Library.Word" "HOL-Library.AList"
begin

unbundle bit_operations_syntax

section \<open>Strings of the Go standard library, on bytes\<close>

text \<open>
  A Go string is a sequence of bytes, and \<open>len\<close> counts bytes; it is modelled as a
  \<^typ>\<open>char list\<close>.  The library functions below are the byte-level reading of
  \<open>strings.Split\<close>, \<open>strings.Join\<close>, \<open>strings.TrimSpace\<close>, \<open>strings.HasPrefix\<close>,
  \<open>strings.HasSuffix\<close> and \<open>strings.ToLower\<close>.  \<open>TrimSpace\<close> and \<open>ToLower\<close> treat the
  ASCII range only: the multi-byte space characters and case pairs of Unicode are
  left as they are.
\<close>

definition newline :: char where
  "newline = CHR 0x0A"

text \<open>
  \<open>strings.Split\<close> with a one-byte separator: always at least one piece.
  \<open>chunkMarkdown\<close> splits at line feeds.
\<close>

fun splitOn :: "char \<Rightarrow> string \<Rightarrow> string list" where
  "splitOn sep [] = [[]]"
| "splitOn sep (c # cs) =
     (if c = sep then [] # splitOn sep cs
      else (case splitOn sep cs of [] \<Rightarrow> [[c]] | l # ls \<Rightarrow> (c # l) # ls))"

definition Split :: "string \<Rightarrow> string list" where
  "Split content = splitOn newline content"

text \<open>\<open>strings.Join(elems, sep)\<close>.\<close>

fun Join :: "string list \<Rightarrow> string \<Rightarrow> string" where
  "Join [] sep = []"
| "Join [x] sep = x"
| "Join (x # y # ys) sep = x @ sep @ Join (y # ys) sep"

text \<open>The ASCII white space of \<open>unicode.IsSpace\<close>: tab, LF, VT, FF, CR and space.\<close>

definition isSpace :: "char \<Rightarrow> bool" where
  "isSpace c \<longleftrightarrow>
     c = CHR 0x09 \<or> c = CHR 0x0A \<or> c = CHR 0x0B \<or> c = CHR 0x0C \<or> c = CHR 0x0D \<or> c = CHR 0x20"

definition TrimSpace :: "string \<Rightarrow> string" where
  "TrimSpace s = rev (dropWhile isSpace (rev (dropWhile isSpace s)))"

definition HasPrefix :: "string \<Rightarrow> string \<Rightarrow> bool" where
  "HasPrefix s p \<longleftrightarrow> take (length p) s = p"

definition HasSuffix :: "string \<Rightarrow> string \<Rightarrow> bool" where
  "HasSuffix s p \<longleftrightarrow> length p \<le> length s \<and> drop (length s - length p) s = p"

definition lowerByte :: "char \<Rightarrow> char" where
  "lowerByte c =
     (let n = (of_char c :: nat) in if 65 \<le> n \<and> n \<le> 90 then char_of (n + 32) else c)"

definition ToLower :: "string \<Rightarrow> string" where
  "ToLower s = map lowerByte s"

section \<open>Slash-separated paths (path/filepath)\<close>

text \<open>
  \<open>filepath.Clean\<close>, \<open>filepath.Join\<close> and \<open>filepath.Rel\<close> for slash-separated paths
  without volume names, on the elements of a path.  \<open>Clean\<close> drops empty and \<open>.\<close>
  elements and resolves \<open>..\<close> against the element before it; \<open>Rel\<close> cleans both
  paths, drops their common leading elements and climbs with one \<open>..\<close> for each
  element left of the base.  The watcher only asks whether the result is an
  error, begins with a dot, or is a path below the base.
\<close>

definition slash :: char where
  "slash = CHR ''/''"

definition isRooted :: "string \<Rightarrow> bool" where
  "isRooted p \<longleftrightarrow> p \<noteq> [] \<and> hd p = slash"

fun cleanElems :: "bool \<Rightarrow> string list \<Rightarrow> string list \<Rightarrow> string list" where
  "cleanElems rooted out [] = out"
| "cleanElems rooted out (e # es) =
     (if e = [] \<or> e = ''.'' then cleanElems rooted out es
      else if e = ''..'' then
        (if out \<noteq> [] \<and> last out \<noteq> ''..'' then cleanElems rooted (butlast out) es
         else if rooted then cleanElems rooted out es
         else cleanElems rooted (out @ [''..'']) es)
      else cleanElems rooted (out @ [e]) es)"

definition Clean :: "string \<Rightarrow> string" where
  "Clean p =
     (if p = [] then ''.''
      else (let out = cleanElems (isRooted p) [] (splitOn slash p)
            in if isRooted p then slash # Join out [slash]
               else if out = [] then ''.'' else Join out [slash]))"

definition filepath_Join :: "string \<Rightarrow> string \<Rightarrow> string" where
  "filepath_Join a b =
     (let elems = filter (\<lambda>e. e \<noteq> []) [a, b]
      in if elems = [] then [] else Clean (Join elems [slash]))"

definition pathElems :: "string \<Rightarrow> string list" where
  "pathElems p = filter (\<lambda>e. e \<noteq> []) (splitOn slash p)"

fun dropCommon :: "string list \<Rightarrow> string list \<Rightarrow> string list \<times> string list" where
  "dropCommon (b # bs) (t # ts) = (if b = t then dropCommon bs ts else (b # bs, t # ts))"
| "dropCommon bs ts = (bs, ts)"

definition Rel :: "string \<Rightarrow> string \<Rightarrow> string + string" where
  "Rel basepath targpath =
     (let base = Clean basepath; targ = Clean targpath
      in if targ = base then Inr ''.''
         else (let base1 = (if base = ''.'' then [] else base)
               in if isRooted base1 \<noteq> isRooted targ
                  then Inl (''Rel: can't make '' @ targpath @ '' relative to '' @ basepath)
                  else (case dropCommon (pathElems base1) (pathElems targ) of
                          ([], ts) \<Rightarrow> Inr (Join ts [slash])
                        | (b # bs, ts) \<Rightarrow>
                            if b = ''..''
                            then Inl (''Rel: can't make '' @ targpath @ '' relative to '' @ basepath)
                            else Inr (Join (replicate (length (b # bs)) ''..'' @ ts) [slash]))))"

text \<open>\<open>filepath.Base\<close> and \<open>filepath.Ext\<close>, used for the fallback title.\<close>

definition Base :: "string \<Rightarrow> string" where
  "Base p =
     (if p = [] then ''.''
      else (case pathElems p of [] \<Rightarrow> [slash] | e # es \<Rightarrow> last (e # es)))"

definition Ext :: "string \<Rightarrow> string" where
  "Ext p =
     (let name = rev (takeWhile (\<lambda>c. c \<noteq> slash) (rev p))
      in if CHR ''.'' \<in> set name
         then CHR ''.'' # rev (takeWhile (\<lambda>c. c \<noteq> CHR ''.'') (rev name))
         else [])"

definition TrimPrefix :: "string \<Rightarrow> string \<Rightarrow> string" where
  "TrimPrefix s p = (if HasPrefix s p then drop (length p) s else s)"

definition TrimSuffix :: "string \<Rightarrow> string \<Rightarrow> string" where
  "TrimSuffix s p = (if HasSuffix s p then take (length s - length p) s else s)"

section \<open>The chunker (internal/indexer/indexer.go)\<close>

definition maxChunkTokens :: nat where
  "maxChunkTokens = 500"

definition batchSize :: nat where
  "batchSize = 96"

definition avgCharsPerToken :: nat where
  "avgCharsPerToken = 4"

record Chunk =
  Content :: string
  StartLine :: int
  EndLine :: int
  Heading :: string

subsection \<open>The heading pattern\<close>

text \<open>
  \<open>headingRegex\<close> is \<open>^(#{1,6})\s+(.+)$\<close>, matched with \<open>FindStringSubmatch\<close>.  The
  pattern has no flags: \<open>\s\<close> is one of tab, LF, FF, CR and space, \<open>.\<close> is any
  character but LF, and \<open>$\<close> is the end of the text.  Go's matcher prefers the
  leftmost match and, for each greedy repetition, the longest; so the first group
  is the whole run of marker characters (which must be 1 to 6 long and followed
  by white space), the white-space run is taken as long as it leaves one
  character for the second group, and the second group runs to the end of the
  text.  \<open>headingMatch\<close> returns the two groups, or \<open>None\<close> where the pattern does
  not match.
\<close>

definition reSpace :: "char \<Rightarrow> bool" where
  "reSpace c \<longleftrightarrow>
     c = CHR 0x09 \<or> c = CHR 0x0A \<or> c = CHR 0x0C \<or> c = CHR 0x0D \<or> c = CHR 0x20"

definition headingMatch :: "string \<Rightarrow> (string \<times> string) option" where
  "headingMatch line =
     (let hashes = takeWhile (\<lambda>c. c = CHR ''#'') line;
          after = dropWhile (\<lambda>c. c = CHR ''#'') line;
          ws = takeWhile reSpace after;
          rest = dropWhile reSpace after
      in if length hashes < 1 \<or> 6 < length hashes \<or> ws = [] then None
         else if rest \<noteq> [] then
           (if newline \<in> set rest then None else Some (hashes, rest))
         else if 2 \<le> length ws \<and> last ws \<noteq> newline then Some (hashes, [last ws])
         else None)"

subsection \<open>The scan\<close>

text \<open>
  The local variables of \<open>chunkMarkdown\<close>: the chunks appended so far, the
  \<open>strings.Builder\<close> holding the current buffer, the breadcrumb, the heading stack
  and the two line counters.
\<close>

record scan =
  chunks :: "Chunk list"
  currentChunk :: string
  currentHeading :: string
  headingStack :: "string list"
  startLine :: int
  currentLine :: int

definition scan0 :: scan where
  "scan0 = \<lparr>chunks = [], currentChunk = [], currentHeading = [], headingStack = [],
            startLine = 1, currentLine = 1\<rparr>"

text \<open>The closure \<open>flushChunk\<close>.\<close>

definition flushChunk :: "scan \<Rightarrow> scan" where
  "flushChunk s =
     (let text = TrimSpace (currentChunk s);
          s1 = (if text \<noteq> [] \<and> 20 < length text
                then s\<lparr>chunks := chunks s @
                       [\<lparr>Content = text, StartLine = startLine s,
                         EndLine = currentLine s - 1, Heading = currentHeading s\<rparr>]\<rparr>
                else s)
      in s1\<lparr>currentChunk := [], startLine := currentLine s1\<rparr>)"

text \<open>
  \<open>for len(headingStack) >= level { headingStack = headingStack[:len(headingStack)-1] }\<close>.
  The level is the length of the first group, so it is at least 1 and the stack
  is not empty whenever the loop condition holds.
\<close>

function popStack :: "nat \<Rightarrow> string list \<Rightarrow> string list" where
  "popStack level st =
     (if level \<le> length st \<and> st \<noteq> [] then popStack level (butlast st) else st)"
  by pat_completeness auto
termination
  by (relation "measure (\<lambda>(level, st). length st)") auto

declare popStack.simps [simp del]

text \<open>The branch of the loop body taken on a heading line, with the two groups of the match.\<close>

definition onHeading :: "scan \<Rightarrow> string \<Rightarrow> string \<Rightarrow> scan" where
  "onHeading s hashes headingText =
     (let s1 = flushChunk s;
          level = length hashes;
          st = popStack level (headingStack s1) @ [headingText]
      in s1\<lparr>headingStack := st, currentHeading := Join st '' > '',
             startLine := currentLine s1\<rparr>)"

text \<open>One iteration of \<open>for _, line := range lines\<close>.\<close>

definition scanLine :: "scan \<Rightarrow> string \<Rightarrow> scan" where
  "scanLine s line =
     (let s1 = (case headingMatch line of
                  Some (hashes, headingText) \<Rightarrow> onHeading s hashes headingText
                | None \<Rightarrow> s);
          s2 = s1\<lparr>currentChunk := currentChunk s1 @ line @ [newline]\<rparr>;
          s3 = (if maxChunkTokens * avgCharsPerToken < length (currentChunk s2)
                then flushChunk s2 else s2)
      in s3\<lparr>currentLine := currentLine s3 + 1\<rparr>)"

definition chunkMarkdown :: "string \<Rightarrow> Chunk list" where
  "chunkMarkdown content = chunks (flushChunk (foldl scanLine scan0 (Split content)))"

text \<open>
  \<open>extractTitle\<close>.  The \<open>bufio.Scanner\<close> yields the lines of the content; every line
  is trimmed before the test, so the carriage return a scanner strips makes no
  difference.  (Lines are taken to be shorter than the scanner's 64 KiB token
  limit.)
\<close>

definition extractTitle :: "string \<Rightarrow> string \<Rightarrow> string" where
  "extractTitle content relPath =
     (case filter (\<lambda>line. HasPrefix line ''# '') (map TrimSpace (Split content)) of
        line # _ \<Rightarrow> TrimPrefix line ''# ''
      | [] \<Rightarrow> (let base = Base relPath in TrimSuffix base (Ext base)))"

subsection \<open>internal/indexer/filters.go\<close>

definition isHiddenDir :: "string \<Rightarrow> bool" where
  "isHiddenDir name = HasPrefix name ''.''"

definition isHiddenRelPath :: "string \<Rightarrow> bool" where
  "isHiddenRelPath relPath = HasPrefix relPath ''.''"

definition isMarkdownFile :: "string \<Rightarrow> bool" where
  "isMarkdownFile name = HasSuffix (ToLower name) ''.md''"

section \<open>Errors, results and the collaborators\<close>

text \<open>
  A Go \<open>error\<close> value: the sentinel \<open>errNoEmbeddings\<close>, an error that comes from a
  collaborator (with its message), and the wrappers built with
  \<open>fmt.Errorf("...: %w", err)\<close>, with the batch number where the format has one.
\<close>

datatype error =
    ErrNoEmbeddings
  | Failure string
  | Wrap string error
  | WrapBatch nat error

text \<open>The run-time panic of an index expression \<open>xs[i]\<close> with \<open>i\<close> out of range.\<close>

datatype panic = IndexOutOfRange int nat

datatype 'a result = Ok 'a | Err error | Panic panic

fun errors_Is :: "error \<Rightarrow> error \<Rightarrow> bool" where
  "errors_Is (Wrap m e) target = (Wrap m e = target \<or> errors_Is e target)"
| "errors_Is (WrapBatch n e) target = (WrapBatch n e = target \<or> errors_Is e target)"
| "errors_Is e target = (e = target)"

type_synonym bytes = "8 word list"

subsection \<open>The tables of the store\<close>

text \<open>
  \<open>db.Document\<close>, a row of \<open>chunks\<close> (\<open>db.Chunk\<close>), a row of a similarity search
  (\<open>db.ChunkWithScore\<close>) and the three tables of the schema.  \<open>vec_chunks\<close> maps a
  chunk id to its serialized embedding.  \<open>last_insert_rowid\<close> is the value SQLite
  keeps per connection and \<open>Result.LastInsertId\<close> reports: the row id of the last
  row inserted; an upsert that updates a row leaves it as it was.
\<close>

record Document =
  doc_ID :: int
  doc_Path :: string
  doc_Title :: string
  doc_ModifiedAt :: int
  doc_IndexedAt :: int

record ChunkRow =
  row_ID :: int
  row_DocID :: int
  row_Content :: string
  row_StartLine :: int
  row_EndLine :: int
  row_Heading :: string

record ChunkWithScore =
  cand_ID :: int
  cand_DocID :: int
  cand_Content :: string
  cand_StartLine :: int
  cand_EndLine :: int
  cand_Heading :: string
  cand_Distance :: real
  cand_Path :: string

record DB =
  documents :: "Document list"
  chunkRows :: "ChunkRow list"
  vec_chunks :: "(int \<times> bytes) list"
  last_insert_rowid :: int

subsection \<open>The environment\<close>

text \<open>
  What the program reads from outside itself.  The file system: \<open>markdownFiles\<close> is
  what the walk of \<open>findMarkdownFiles\<close> returns (the relative paths in walk order,
  or the error of the walk), \<open>Stat\<close> gives \<open>info.ModTime().Unix()\<close> for a path and
  \<open>ReadFile\<close> its content.  The remote provider: \<open>V2Embed\<close> and \<open>V2Rerank\<close> answer the
  n-th request sent (requests are numbered from 0, in the order sent); the answer
  to an embed request is an error or the field \<open>Embeddings.Float\<close> of the response
  (\<open>None\<close> where it is nil).  \<open>float32\<close> is the rounding of a \<open>float64\<close>, and
  \<open>SerializeFloat32\<close> the serializer of the sqlite-vec binding.  The store:
  \<open>dbFault\<close> says whether the n-th statement sent to SQLite fails, and \<open>vecSearch\<close>
  is the nearest-neighbour query of \<open>SearchSimilar\<close> on the tables.
\<close>

datatype input_type = SearchDocument | SearchQuery

record env =
  dir :: string
  markdownFiles :: "string + string list"
  Stat :: "string \<Rightarrow> string + int"
  ReadFile :: "string \<Rightarrow> string + string"
  Now :: int
  V2Embed :: "nat \<Rightarrow> string list \<Rightarrow> input_type \<Rightarrow> string + real list list option"
  V2Rerank :: "nat \<Rightarrow> string \<Rightarrow> string list \<Rightarrow> nat \<Rightarrow> string + (int \<times> real) list"
  float32 :: "real \<Rightarrow> real"
  SerializeFloat32 :: "real list \<Rightarrow> string + bytes"
  dbFault :: "nat \<Rightarrow> string option"
  vecSearch :: "DB \<Rightarrow> bytes \<Rightarrow> nat \<Rightarrow> ChunkWithScore list"

text \<open>
  What the program changes: the store, the number of statements sent to it, the
  requests sent to the provider (for an embed request its texts, for a rerank
  request the query and the documents) and the paths given to \<open>os.ReadFile\<close>.
\<close>

record world =
  db :: DB
  dbOps :: nat
  embedRequests :: "string list list"
  rerankRequests :: "(string \<times> string list) list"
  fileReads :: "string list"

text \<open>\<open>if err != nil { return err }\<close>: go on with the value, or return the error.\<close>

definition andThen ::
  "'a result \<times> world \<Rightarrow> ('a \<Rightarrow> world \<Rightarrow> 'b result \<times> world) \<Rightarrow> 'b result \<times> world" where
  "andThen m f =
     (case m of
        (Ok a, w) \<Rightarrow> f a w
      | (Err e, w) \<Rightarrow> (Err e, w)
      | (Panic p, w) \<Rightarrow> (Panic p, w))"

section \<open>The store (package db)\<close>

text \<open>One statement that changes the tables, and one that reads them.\<close>

definition exec :: "env \<Rightarrow> (DB \<Rightarrow> DB) \<Rightarrow> world \<Rightarrow> unit result \<times> world" where
  "exec E f w =
     (case dbFault E (dbOps w) of
        Some msg \<Rightarrow> (Err (Failure msg), w\<lparr>dbOps := dbOps w + 1\<rparr>)
      | None \<Rightarrow> (Ok (), w\<lparr>db := f (db w), dbOps := dbOps w + 1\<rparr>))"

definition query :: "env \<Rightarrow> (DB \<Rightarrow> 'a) \<Rightarrow> world \<Rightarrow> 'a result \<times> world" where
  "query E f w =
     (case dbFault E (dbOps w) of
        Some msg \<Rightarrow> (Err (Failure msg), w\<lparr>dbOps := dbOps w + 1\<rparr>)
      | None \<Rightarrow> (Ok (f (db w)), w\<lparr>dbOps := dbOps w + 1\<rparr>))"

text \<open>The row id SQLite gives a new row of a table with an \<open>INTEGER PRIMARY KEY\<close>.\<close>

definition nextRowid :: "int list \<Rightarrow> int" where
  "nextRowid ids = fold max ids 0 + 1"

definition GetAllDocuments :: "env \<Rightarrow> world \<Rightarrow> Document list result \<times> world" where
  "GetAllDocuments E w = query E documents w"

text \<open>
  \<open>INSERT ... ON CONFLICT(path) DO UPDATE\<close>, then \<open>result.LastInsertId()\<close> (which the
  SQLite driver answers without an error, so the \<open>SELECT\<close> of the fallback is never
  sent).
\<close>

definition upsertRow :: "string \<Rightarrow> string \<Rightarrow> int \<Rightarrow> int \<Rightarrow> DB \<Rightarrow> DB" where
  "upsertRow path title modifiedAt indexedAt d =
     (if path \<in> set (map doc_Path (documents d))
      then d\<lparr>documents :=
             map (\<lambda>doc. if doc_Path doc = path
                         then doc\<lparr>doc_Title := title, doc_ModifiedAt := modifiedAt,
                                  doc_IndexedAt := indexedAt\<rparr>
                         else doc) (documents d)\<rparr>
      else (let newID = nextRowid (map doc_ID (documents d))
            in d\<lparr>documents := documents d @
                   [\<lparr>doc_ID = newID, doc_Path = path, doc_Title = title,
                     doc_ModifiedAt = modifiedAt, doc_IndexedAt = indexedAt\<rparr>],
                 last_insert_rowid := newID\<rparr>))"

definition UpsertDocument ::
  "env \<Rightarrow> string \<Rightarrow> string \<Rightarrow> int \<Rightarrow> int \<Rightarrow> world \<Rightarrow> int result \<times> world" where
  "UpsertDocument E path title modifiedAt indexedAt w =
     andThen (exec E (upsertRow path title modifiedAt indexedAt) w)
       (\<lambda>_ w1. (Ok (last_insert_rowid (db w1)), w1))"

text \<open>\<open>DELETE FROM vec_chunks WHERE chunk_id = ?\<close>, for each chunk id in turn.\<close>

fun deleteVecs :: "env \<Rightarrow> int list \<Rightarrow> world \<Rightarrow> unit result \<times> world" where
  "deleteVecs E [] w = (Ok (), w)"
| "deleteVecs E (chunkID # rest) w =
     andThen (exec E (\<lambda>d. d\<lparr>vec_chunks := filter (\<lambda>kv. fst kv \<noteq> chunkID) (vec_chunks d)\<rparr>) w)
       (\<lambda>_ w1. deleteVecs E rest w1)"

definition chunkIDsOf :: "int \<Rightarrow> DB \<Rightarrow> int list" where
  "chunkIDsOf docID d = map row_ID (filter (\<lambda>r. row_DocID r = docID) (chunkRows d))"

definition DeleteDocument :: "env \<Rightarrow> string \<Rightarrow> world \<Rightarrow> unit result \<times> world" where
  "DeleteDocument E path w =
     andThen (query E (\<lambda>d. find (\<lambda>doc. doc_Path doc = path) (documents d)) w)
       (\<lambda>found w1.
          case found of
            None \<Rightarrow> (Ok (), w1)
          | Some doc \<Rightarrow>
              andThen (query E (chunkIDsOf (doc_ID doc)) w1)
                (\<lambda>chunkIDs w2.
                   andThen (deleteVecs E chunkIDs w2)
                     (\<lambda>_ w3.
                        andThen
                          (exec E (\<lambda>d. d\<lparr>chunkRows :=
                               filter (\<lambda>r. row_DocID r \<noteq> doc_ID doc) (chunkRows d)\<rparr>) w3)
                          (\<lambda>_ w4.
                             exec E (\<lambda>d. d\<lparr>documents :=
                               filter (\<lambda>x. doc_ID x \<noteq> doc_ID doc) (documents d)\<rparr>) w4))))"

definition DeleteChunksForDocument :: "env \<Rightarrow> int \<Rightarrow> world \<Rightarrow> unit result \<times> world" where
  "DeleteChunksForDocument E docID w =
     andThen (query E (chunkIDsOf docID) w)
       (\<lambda>chunkIDs w1.
          andThen (deleteVecs E chunkIDs w1)
            (\<lambda>_ w2. exec E (\<lambda>d. d\<lparr>chunkRows :=
                        filter (\<lambda>r. row_DocID r \<noteq> docID) (chunkRows d)\<rparr>) w2))"

definition insertChunkRow :: "int \<Rightarrow> string \<Rightarrow> int \<Rightarrow> int \<Rightarrow> string \<Rightarrow> DB \<Rightarrow> DB" where
  "insertChunkRow docID text startL endL heading d =
     (let newID = nextRowid (map row_ID (chunkRows d))
      in d\<lparr>chunkRows := chunkRows d @
             [\<lparr>row_ID = newID, row_DocID = docID, row_Content = text,
               row_StartLine = startL, row_EndLine = endL, row_Heading = heading\<rparr>],
           last_insert_rowid := newID\<rparr>)"

definition InsertChunk ::
  "env \<Rightarrow> int \<Rightarrow> string \<Rightarrow> int \<Rightarrow> int \<Rightarrow> string \<Rightarrow> world \<Rightarrow> int result \<times> world" where
  "InsertChunk E docID text startL endL heading w =
     andThen (exec E (insertChunkRow docID text startL endL heading) w)
       (\<lambda>_ w1. (Ok (last_insert_rowid (db w1)), w1))"

text \<open>
  \<open>INSERT INTO vec_chunks\<close>: \<open>chunk_id\<close> is the primary key of the table, so a second
  row for a chunk id is refused.
\<close>

definition InsertEmbedding :: "env \<Rightarrow> int \<Rightarrow> bytes \<Rightarrow> world \<Rightarrow> unit result \<times> world" where
  "InsertEmbedding E chunkID embedding w =
     (case dbFault E (dbOps w) of
        Some msg \<Rightarrow> (Err (Failure msg), w\<lparr>dbOps := dbOps w + 1\<rparr>)
      | None \<Rightarrow>
          if chunkID \<in> set (map fst (vec_chunks (db w)))
          then (Err (Failure ''UNIQUE constraint failed on vec_chunks primary key''),
                w\<lparr>dbOps := dbOps w + 1\<rparr>)
          else (Ok (), w\<lparr>db := (db w)\<lparr>vec_chunks := vec_chunks (db w) @ [(chunkID, embedding)],
                                       last_insert_rowid := chunkID\<rparr>,
                         dbOps := dbOps w + 1\<rparr>))"

definition SearchSimilar ::
  "env \<Rightarrow> bytes \<Rightarrow> nat \<Rightarrow> world \<Rightarrow> ChunkWithScore list result \<times> world" where
  "SearchSimilar E queryEmbedding limit w =
     query E (\<lambda>d. vecSearch E d queryEmbedding limit) w"

section \<open>The provider client (internal/cohere/client.go)\<close>

record EmbeddingResult =
  Embedding :: "real list"

record RerankResult =
  rr_Index :: int
  rr_Score :: real

definition float64sToFloat32s :: "env \<Rightarrow> real list \<Rightarrow> real list" where
  "float64sToFloat32s E f64s = map (float32 E) f64s"

definition embed ::
  "env \<Rightarrow> string list \<Rightarrow> input_type \<Rightarrow> world \<Rightarrow> real list list result \<times> world" where
  "embed E texts inputType w =
     (if texts = [] then (Ok [], w)
      else (let w1 = w\<lparr>embedRequests := embedRequests w @ [texts]\<rparr>
            in case V2Embed E (length (embedRequests w)) texts inputType of
                 Inl msg \<Rightarrow> (Err (Failure msg), w1)
               | Inr None \<Rightarrow> (Err ErrNoEmbeddings, w1)
               | Inr (Some floats) \<Rightarrow> (Ok (map (float64sToFloat32s E) floats), w1)))"

definition EmbedDocuments ::
  "env \<Rightarrow> string list \<Rightarrow> world \<Rightarrow> EmbeddingResult list result \<times> world" where
  "EmbedDocuments E texts w =
     (if texts = [] then (Ok [], w)
      else (case embed E texts SearchDocument w of
              (Err e, w1) \<Rightarrow>
                if errors_Is e ErrNoEmbeddings then (Err e, w1)
                else (Err (Wrap ''embed request failed'' e), w1)
            | (Ok embeddings, w1) \<Rightarrow>
                (Ok (map (\<lambda>emb. \<lparr>Embedding = emb\<rparr>) embeddings), w1)
            | (Panic p, w1) \<Rightarrow> (Panic p, w1)))"

definition EmbedQuery :: "env \<Rightarrow> string \<Rightarrow> world \<Rightarrow> real list result \<times> world" where
  "EmbedQuery E q w =
     (case embed E [q] SearchQuery w of
        (Err e, w1) \<Rightarrow>
          if errors_Is e ErrNoEmbeddings then (Err (Failure ''no embedding returned''), w1)
          else (Err (Wrap ''embed query failed'' e), w1)
      | (Ok embeddings, w1) \<Rightarrow>
          if embeddings = [] then (Err (Failure ''no embedding returned''), w1)
          else (Ok (hd embeddings), w1)
      | (Panic p, w1) \<Rightarrow> (Panic p, w1))"

definition Rerank ::
  "env \<Rightarrow> string \<Rightarrow> string list \<Rightarrow> nat \<Rightarrow> world \<Rightarrow> RerankResult list result \<times> world" where
  "Rerank E q docs topN w =
     (if docs = [] then (Ok [], w)
      else (let w1 = w\<lparr>rerankRequests := rerankRequests w @ [(q, docs)]\<rparr>
            in case V2Rerank E (length (rerankRequests w)) q docs topN of
                 Inl msg \<Rightarrow> (Err (Wrap ''rerank request failed'' (Failure msg)), w1)
               | Inr rs \<Rightarrow>
                   (Ok (map (\<lambda>r. \<lparr>rr_Index = fst r, rr_Score = snd r\<rparr>) rs), w1)))"

section \<open>The indexer (internal/indexer/indexer.go)\<close>

record pendingChunk =
  chunkID :: int
  content :: string

subsection \<open>The embedding pass\<close>

text \<open>
  The inner loop of \<open>embedPending\<close>, \<open>for j, p := range batch\<close>: \<open>embeddings[j]\<close> is
  read without a look at \<open>len(embeddings)\<close>, so the read panics where \<open>j\<close> is out of
  range.
\<close>

fun storeBatch ::
  "env \<Rightarrow> EmbeddingResult list \<Rightarrow> nat \<Rightarrow> pendingChunk list \<Rightarrow> world \<Rightarrow> unit result \<times> world"
where
  "storeBatch E embeddings j [] w = (Ok (), w)"
| "storeBatch E embeddings j (p # ps) w =
     (if j < length embeddings
      then (case SerializeFloat32 E (Embedding (embeddings ! j)) of
              Inl msg \<Rightarrow> (Err (Wrap ''failed to serialize embedding'' (Failure msg)), w)
            | Inr embBytes \<Rightarrow>
                (case InsertEmbedding E (chunkID p) embBytes w of
                   (Err e, w1) \<Rightarrow> (Err (Wrap ''failed to insert embedding'' e), w1)
                 | (Panic x, w1) \<Rightarrow> (Panic x, w1)
                 | (Ok u, w1) \<Rightarrow> storeBatch E embeddings (j + 1) ps w1))
      else (Panic (IndexOutOfRange (int j) (length embeddings)), w))"

text \<open>The outer loop, \<open>for i := 0; i < len(pending); i += batchSize\<close>.\<close>

function embedFrom :: "env \<Rightarrow> nat \<Rightarrow> pendingChunk list \<Rightarrow> world \<Rightarrow> unit result \<times> world" where
  "embedFrom E i pending w =
     (if i < length pending
      then (let end = (if length pending < i + batchSize then length pending else i + batchSize);
                batch = take (end - i) (drop i pending);
                batchNum = i div batchSize + 1;
                texts = map content batch
            in case EmbedDocuments E texts w of
                 (Err e, w1) \<Rightarrow> (Err (WrapBatch batchNum e), w1)
               | (Panic x, w1) \<Rightarrow> (Panic x, w1)
               | (Ok embeddings, w1) \<Rightarrow>
                   (case storeBatch E embeddings 0 batch w1 of
                      (Ok u, w2) \<Rightarrow> embedFrom E (i + batchSize) pending w2
                    | (Err e, w2) \<Rightarrow> (Err e, w2)
                    | (Panic x, w2) \<Rightarrow> (Panic x, w2)))
      else (Ok (), w))"
  by pat_completeness auto
termination
  by (relation "measure (\<lambda>(E, i, pending, w). length pending - i)") (auto simp: batchSize_def)

declare embedFrom.simps [simp del]

definition embedPending :: "env \<Rightarrow> pendingChunk list \<Rightarrow> world \<Rightarrow> unit result \<times> world" where
  "embedPending E pending w = (if pending = [] then (Ok (), w) else embedFrom E 0 pending w)"

subsection \<open>Parsing one file\<close>

fun insertChunks ::
  "env \<Rightarrow> int \<Rightarrow> Chunk list \<Rightarrow> world \<Rightarrow> pendingChunk list result \<times> world" where
  "insertChunks E docID [] w = (Ok [], w)"
| "insertChunks E docID (c # cs) w =
     andThen (InsertChunk E docID (Content c) (StartLine c) (EndLine c) (Heading c) w)
       (\<lambda>newID w1.
          andThen (insertChunks E docID cs w1)
            (\<lambda>pending w2. (Ok (\<lparr>chunkID = newID, content = Content c\<rparr> # pending), w2)))"

definition parseFile :: "env \<Rightarrow> string \<Rightarrow> world \<Rightarrow> pendingChunk list result \<times> world" where
  "parseFile E relPath w =
     (let absPath = filepath_Join (dir E) relPath
      in case Stat E absPath of
           Inl msg \<Rightarrow> (Err (Failure msg), w)
         | Inr mtime \<Rightarrow>
             (let w1 = w\<lparr>fileReads := fileReads w @ [absPath]\<rparr>
              in case ReadFile E absPath of
                   Inl msg \<Rightarrow> (Err (Failure msg), w1)
                 | Inr text \<Rightarrow>
                     andThen (UpsertDocument E relPath (extractTitle text relPath) mtime (Now E) w1)
                       (\<lambda>docID w2.
                          andThen (DeleteChunksForDocument E docID w2)
                            (\<lambda>_ w3. insertChunks E docID (chunkMarkdown text) w3))))"

definition indexFile :: "env \<Rightarrow> string \<Rightarrow> world \<Rightarrow> unit result \<times> world" where
  "indexFile E relPath w =
     andThen (parseFile E relPath w) (\<lambda>pending w1. embedPending E pending w1)"

subsection \<open>The reconcile pass\<close>

definition needsIndexing :: "env \<Rightarrow> string \<Rightarrow> bool \<Rightarrow> Document option \<Rightarrow> bool result" where
  "needsIndexing E relPath fullReindex doc =
     (if fullReindex then Ok True
      else (case doc of
              None \<Rightarrow> Ok True
            | Some d \<Rightarrow>
                (case Stat E (filepath_Join (dir E) relPath) of
                   Inl msg \<Rightarrow> Err (Failure msg)
                 | Inr mtime \<Rightarrow> Ok (doc_ModifiedAt d < mtime))))"

text \<open>\<open>existingByPath\<close>: the map filled by the loop over \<open>existingDocs\<close>.\<close>

definition existingByPath :: "Document list \<Rightarrow> (string \<rightharpoonup> Document)" where
  "existingByPath docs = fold (\<lambda>d m. m(doc_Path d \<mapsto> d)) docs Map.empty"

text \<open>The loop that deletes the documents whose path the walk did not return.\<close>

fun deleteMissing :: "env \<Rightarrow> string list \<Rightarrow> Document list \<Rightarrow> world \<Rightarrow> unit result \<times> world" where
  "deleteMissing E files [] w = (Ok (), w)"
| "deleteMissing E files (doc # docs) w =
     (if doc_Path doc \<notin> set files
      then (case DeleteDocument E (doc_Path doc) w of
              (Err e, w1) \<Rightarrow> (Err (Wrap (''failed to delete document '' @ doc_Path doc) e), w1)
            | (Panic x, w1) \<Rightarrow> (Panic x, w1)
            | (Ok u, w1) \<Rightarrow> deleteMissing E files docs w1)
      else deleteMissing E files docs w)"

text \<open>The loop that fills \<open>filesToIndex\<close>.\<close>

fun filesToIndex ::
  "env \<Rightarrow> bool \<Rightarrow> (string \<rightharpoonup> Document) \<Rightarrow> string list \<Rightarrow> string list result" where
  "filesToIndex E fullReindex byPath [] = Ok []"
| "filesToIndex E fullReindex byPath (filePath # rest) =
     (case needsIndexing E filePath fullReindex (byPath filePath) of
        Err e \<Rightarrow> Err e
      | Panic x \<Rightarrow> Panic x
      | Ok needsIndex \<Rightarrow>
          (case filesToIndex E fullReindex byPath rest of
             Ok others \<Rightarrow> Ok (if needsIndex then filePath # others else others)
           | Err e \<Rightarrow> Err e
           | Panic x \<Rightarrow> Panic x))"

text \<open>Phase 1: parse every file of \<open>filesToIndex\<close> and collect the pending chunks.\<close>

fun parseAll :: "env \<Rightarrow> string list \<Rightarrow> world \<Rightarrow> pendingChunk list result \<times> world" where
  "parseAll E [] w = (Ok [], w)"
| "parseAll E (filePath # rest) w =
     (case parseFile E filePath w of
        (Err e, w1) \<Rightarrow> (Err (Wrap (''failed to parse '' @ filePath) e), w1)
      | (Panic x, w1) \<Rightarrow> (Panic x, w1)
      | (Ok pending, w1) \<Rightarrow>
          andThen (parseAll E rest w1) (\<lambda>others w2. (Ok (pending @ others), w2)))"

text \<open>\<open>Index\<close>, without the progress callback.\<close>

definition Index :: "env \<Rightarrow> bool \<Rightarrow> world \<Rightarrow> unit result \<times> world" where
  "Index E fullReindex w =
     (case markdownFiles E of
        Inl msg \<Rightarrow> (Err (Wrap ''failed to find markdown files'' (Failure msg)), w)
      | Inr files \<Rightarrow>
          (case GetAllDocuments E w of
             (Err e, w1) \<Rightarrow> (Err (Wrap ''failed to get existing documents'' e), w1)
           | (Panic x, w1) \<Rightarrow> (Panic x, w1)
           | (Ok existingDocs, w1) \<Rightarrow>
               andThen (deleteMissing E files existingDocs w1)
                 (\<lambda>_ w2.
                    case filesToIndex E fullReindex (existingByPath existingDocs) files of
                      Err e \<Rightarrow> (Err e, w2)
                    | Panic x \<Rightarrow> (Panic x, w2)
                    | Ok toIndex \<Rightarrow>
                        if toIndex = [] then (Ok (), w2)
                        else andThen (parseAll E toIndex w2)
                               (\<lambda>allPending w3.
                                  if allPending = [] then (Ok (), w3)
                                  else embedPending E allPending w3))))"

section \<open>The search (package search)\<close>

definition vectorSearchLimit :: nat where
  "vectorSearchLimit = 20"

definition rerankTopN :: nat where
  "rerankTopN = 10"

record Result =
  res_Rank :: int
  res_Score :: real
  res_Path :: string
  res_Heading :: string
  res_Content :: string
  res_StartLine :: int
  res_EndLine :: int
  res_DocID :: int
  res_ChunkID :: int

text \<open>
  The loop \<open>for i, rr := range rerankResults\<close>, from position \<open>i\<close> on:
  \<open>candidates[rr.Index]\<close> panics where the index is negative or not below
  \<open>len(candidates)\<close>.
\<close>

definition resultOf :: "nat \<Rightarrow> RerankResult \<Rightarrow> ChunkWithScore \<Rightarrow> Result" where
  "resultOf i rr c =
     \<lparr>res_Rank = int i + 1, res_Score = rr_Score rr, res_Path = cand_Path c,
      res_Heading = cand_Heading c, res_Content = cand_Content c,
      res_StartLine = cand_StartLine c, res_EndLine = cand_EndLine c,
      res_DocID = cand_DocID c, res_ChunkID = cand_ID c\<rparr>"

fun rankFrom :: "ChunkWithScore list \<Rightarrow> nat \<Rightarrow> RerankResult list \<Rightarrow> Result list result" where
  "rankFrom candidates i [] = Ok []"
| "rankFrom candidates i (rr # rest) =
     (if 0 \<le> rr_Index rr \<and> rr_Index rr < int (length candidates)
      then (case rankFrom candidates (i + 1) rest of
              Ok others \<Rightarrow> Ok (resultOf i rr (candidates ! nat (rr_Index rr)) # others)
            | Err e \<Rightarrow> Err e
            | Panic x \<Rightarrow> Panic x)
      else Panic (IndexOutOfRange (rr_Index rr) (length candidates)))"

definition Search :: "env \<Rightarrow> string \<Rightarrow> world \<Rightarrow> Result list result \<times> world" where
  "Search E q w =
     (case EmbedQuery E q w of
        (Err e, w1) \<Rightarrow> (Err (Wrap ''failed to embed query'' e), w1)
      | (Panic x, w1) \<Rightarrow> (Panic x, w1)
      | (Ok queryEmb, w1) \<Rightarrow>
          (case SerializeFloat32 E queryEmb of
             Inl msg \<Rightarrow> (Err (Wrap ''failed to serialize query embedding'' (Failure msg)), w1)
           | Inr embBytes \<Rightarrow>
               (case SearchSimilar E embBytes vectorSearchLimit w1 of
                  (Err e, w2) \<Rightarrow> (Err (Wrap ''vector search failed'' e), w2)
                | (Panic x, w2) \<Rightarrow> (Panic x, w2)
                | (Ok candidates, w2) \<Rightarrow>
                    if candidates = [] then (Ok [], w2)
                    else (case Rerank E q (map cand_Content candidates) rerankTopN w2 of
                            (Err e, w3) \<Rightarrow> (Err (Wrap ''rerank failed'' e), w3)
                          | (Panic x, w3) \<Rightarrow> (Panic x, w3)
                          | (Ok rerankResults, w3) \<Rightarrow>
                              (rankFrom candidates 0 rerankResults, w3)))))"

section \<open>The watcher (package indexer)\<close>

text \<open>
  A \<open>time.Time\<close> and a \<open>time.Duration\<close> are counted in nanoseconds.  An
  \<open>fsnotify.Event\<close> has a name and a set of operation bits.  The map \<open>pending\<close> is
  kept as a list of its entries, one for each key; the order of the list stands
  for the order in which \<open>range\<close> visits the map, which Go leaves open.
\<close>

definition debounceDelay :: int where
  "debounceDelay = 2 * 1000000000"

record Event =
  Name :: string
  Op :: "32 word"

definition Create :: "32 word" where "Create = 1"
definition Write :: "32 word" where "Write = 2"
definition Remove :: "32 word" where "Remove = 4"
definition Rename :: "32 word" where "Rename = 8"
definition Chmod :: "32 word" where "Chmod = 16"

type_synonym pendingMap = "(string \<times> int) list"

text \<open>\<open>handleEvent\<close>, at the time \<open>now\<close> that \<open>time.Now()\<close> returns; the messages are left out.\<close>

definition handleEvent :: "env \<Rightarrow> Event \<Rightarrow> int \<Rightarrow> pendingMap \<times> world \<Rightarrow> pendingMap \<times> world" where
  "handleEvent E event now pw =
     (if \<not> HasSuffix (ToLower (Name event)) ''.md'' then pw
      else (case Rel (dir E) (Name event) of
              Inl err \<Rightarrow> pw
            | Inr relPath \<Rightarrow>
                if HasPrefix relPath ''.'' then pw
                else if Op event AND Write = Write \<or> Op event AND Create = Create
                then (AList.update relPath now (fst pw), snd pw)
                else if Op event AND Remove = Remove \<or> Op event AND Rename = Rename
                then (AList.delete relPath (fst pw), snd (DeleteDocument E relPath (snd pw)))
                else pw))"

text \<open>
  \<open>indexPendingFiles\<close> at the time \<open>now\<close>: the paths whose entry is old enough are
  collected in \<open>toIndex\<close> and deleted from the map, and \<open>indexFile\<close> is then called
  once for each element of \<open>toIndex\<close>.  The function returns the calls it made,
  each with its outcome (which the source reports in a message).  A panic ends
  the program, so no call follows it.
\<close>

definition toIndex :: "int \<Rightarrow> pendingMap \<Rightarrow> string list" where
  "toIndex now pend = map fst (filter (\<lambda>entry. debounceDelay \<le> now - snd entry) pend)"

fun indexEach :: "env \<Rightarrow> string list \<Rightarrow> world \<Rightarrow> (string \<times> unit result) list \<times> world" where
  "indexEach E [] w = ([], w)"
| "indexEach E (relPath # rest) w =
     (case indexFile E relPath w of
        (Panic x, w1) \<Rightarrow> ([(relPath, Panic x)], w1)
      | (r, w1) \<Rightarrow> (case indexEach E rest w1 of (rs, w2) \<Rightarrow> ((relPath, r) # rs, w2)))"

definition indexPendingFiles ::
  "env \<Rightarrow> int \<Rightarrow> pendingMap \<times> world \<Rightarrow> (string \<times> unit result) list \<times> pendingMap \<times> world" where
  "indexPendingFiles E now pw =
     (let paths = toIndex now (fst pw);
          pend = fold AList.delete paths (fst pw)
      in case indexEach E paths (snd pw) of (calls, w1) \<Rightarrow> (calls, pend, w1))"

section \<open>Auxiliary notions and a small example\<close>

text \<open>The rerank selection \<open>rr\<close> names one of the candidates.\<close>

definition inRange :: "ChunkWithScore list \<Rightarrow> RerankResult \<Rightarrow> bool" where
  "inRange candidates rr \<longleftrightarrow> 0 \<le> rr_Index rr \<and> rr_Index rr < int (length candidates)"

text \<open>
  An environment for examples: a vault with one note, a provider that returns
  one vector for each text and selects the candidates 2 and 0, a store that never
  fails and a similarity search that returns three candidates; and the empty
  world.  In \<open>demoEnvBadIndex\<close> the provider selects the candidates 0 and 3.
\<close>

definition demoCandidates :: "ChunkWithScore list" where
  "demoCandidates =
     [\<lparr>cand_ID = 10, cand_DocID = 1, cand_Content = ''c0'', cand_StartLine = 1,
       cand_EndLine = 2, cand_Heading = ''H0'', cand_Distance = 1/10, cand_Path = ''a.md''\<rparr>,
      \<lparr>cand_ID = 11, cand_DocID = 1, cand_Content = ''c1'', cand_StartLine = 3,
       cand_EndLine = 4, cand_Heading = ''H1'', cand_Distance = 2/10, cand_Path = ''a.md''\<rparr>,
      \<lparr>cand_ID = 12, cand_DocID = 2, cand_Content = ''c2'', cand_StartLine = 1,
       cand_EndLine = 9, cand_Heading = ''H2'', cand_Distance = 3/10, cand_Path = ''b.md''\<rparr>]"

definition demoEnv :: env where
  "demoEnv =
     \<lparr>dir = ''/vault'',
      markdownFiles = Inr [''a.md''],
      Stat = (\<lambda>p. if p = ''/vault/a.md'' then Inr 100 else Inl ''no such file''),
      ReadFile = (\<lambda>p. if p = ''/vault/a.md''
                       then Inr ''# Title\<newline>\<newline>This is the introduction paragraph.\<newline>''
                       else Inl ''no such file''),
      Now = 1000,
      V2Embed = (\<lambda>n texts t. Inr (Some (map (\<lambda>x. [1]) texts))),
      V2Rerank = (\<lambda>n q docs topN. Inr [(2, 9/10), (0, 1/2)]),
      float32 = (\<lambda>x. x),
      SerializeFloat32 = (\<lambda>v. Inr (map (\<lambda>x. 0) v)),
      dbFault = (\<lambda>n. None),
      vecSearch = (\<lambda>d emb k. demoCandidates)\<rparr>"

definition world0 :: world where
  "world0 = \<lparr>db = \<lparr>documents = [], chunkRows = [], vec_chunks = [], last_insert_rowid = 0\<rparr>,
             dbOps = 0, embedRequests = [], rerankRequests = [], fileReads = []\<rparr>"

definition demoEnvBadIndex :: env where
  "demoEnvBadIndex = demoEnv\<lparr>V2Rerank := (\<lambda>n q docs topN. Inr [(0, 9/10), (3, 1/2)])\<rparr>"

text \<open>
  For the watcher: every event of the list is a create or a write event that
  passes the extension test and whose name is \<open>p\<close> relative to the root; and the
  handler run over a list of events, each with the time \<open>time.Now()\<close> returns in it.
\<close>

definition writes :: "env \<Rightarrow> string \<Rightarrow> (Event \<times> int) list \<Rightarrow> bool" where
  "writes E p events \<longleftrightarrow>
     list_all (\<lambda>e. HasSuffix (ToLower (Name (fst e))) ''.md'' \<and> Rel (dir E) (Name (fst e)) = Inr p \<and>
        (Op (fst e) AND Write = Write \<or> Op (fst e) AND Create = Create)) events"

definition handleAll :: "env \<Rightarrow> (Event \<times> int) list \<Rightarrow> pendingMap \<times> world \<Rightarrow> pendingMap \<times> world" where
  "handleAll E events pw = foldl (\<lambda>s e. handleEvent E (fst e) (snd e) s) pw events"

definition demoEvents :: "(Event \<times> int) list" where
  "demoEvents =
     [(\<lparr>Name = ''/vault/a.md'', Op = Create\<rparr>, 0),
      (\<lparr>Name = ''/vault/a.md'', Op = Write\<rparr>, 500000000),
      (\<lparr>Name = ''/vault/a.md'', Op = Write OR Chmod\<rparr>, 1500000000)]"

section \<open>Properties of the chunker\<close>

subsection \<open>Library facts\<close>

lemma splitOn_not_Nil: "splitOn sep s \<noteq> []"
  by (induction s) (auto split: list.splits)

lemma splitOn_no_sep: "sep \<notin> set s \<Longrightarrow> splitOn sep s = [s]"
  by (induction s) auto

lemma splitOn_append_sep: "sep \<notin> set a \<Longrightarrow> splitOn sep (a @ sep # b) = a # splitOn sep b"
  by (induction a) (auto split: list.splits)

lemma TrimSpace_tail:
  assumes "s \<noteq> []" "\<not> isSpace (hd s)" "\<not> isSpace (last s)" "\<forall>c\<in>set ws. isSpace c"
  shows "TrimSpace (s @ ws) = s"
proof -
  from assms(1,2) have a: "dropWhile isSpace (s @ ws) = s @ ws"
    by (cases s) auto
  have b: "dropWhile isSpace (rev ws @ rev s) = dropWhile isSpace (rev s)"
    using assms(4) by (intro dropWhile_append2) auto
  from assms(1,3) have c: "dropWhile isSpace (rev s) = rev s"
    by (cases s rule: rev_cases) auto
  show ?thesis by (simp add: TrimSpace_def a b c)
qed

lemma TrimSpace_Nil: "TrimSpace [] = []"
  by (simp add: TrimSpace_def)

subsection \<open>The heading stack\<close>

lemma popStack_take: "popStack level st = take (level - 1) st"
proof (induction level st rule: popStack.induct)
  case (1 level st)
  show ?case
  proof (cases "level \<le> length st \<and> st \<noteq> []")
    case True
    then have "level - 1 < length st" by (cases st) auto
    then have "take (level - 1) (butlast st) = take (level - 1) st"
      by (rule take_butlast)
    with True 1 show ?thesis by (simp add: popStack.simps [of level st])
  next
    case False
    then show ?thesis by (auto simp: popStack.simps [of level st])
  qed
qed

lemma headingMatch_level:
  "headingMatch line = Some (hashes, t) \<Longrightarrow>
     1 \<le> length hashes \<and> length hashes \<le> 6 \<and> t \<noteq> []"
  by (auto simp: headingMatch_def Let_def Suc_le_eq split: if_splits)

lemma chunks_flushChunk:
  "chunks (flushChunk s) = chunks s @
     (if 20 < length (TrimSpace (currentChunk s))
      then [\<lparr>Content = TrimSpace (currentChunk s), StartLine = startLine s,
             EndLine = currentLine s - 1, Heading = currentHeading s\<rparr>]
      else [])"
  by (auto simp: flushChunk_def Let_def)

lemma scanLine_heading:
  assumes "headingMatch line = Some (hashes, t)"
  shows "headingStack (scanLine s line) = take (length hashes - 1) (headingStack s) @ [t]"
    and "currentHeading (scanLine s line) = Join (headingStack (scanLine s line)) '' > ''"
  using assms
  by (simp_all add: scanLine_def onHeading_def flushChunk_def Let_def popStack_take)

lemma chunks_onHeading:
  "chunks (onHeading s hashes t) = chunks (flushChunk s)"
  by (simp add: onHeading_def Let_def)

lemma nesting_example:
  "chunkMarkdown
     ''# A\<newline>## B\<newline>### C\<newline>body of section C, long enough\<newline>## D\<newline>body of section D, long enough\<newline>'' =
   [\<lparr>Content = ''### C\<newline>body of section C, long enough'', StartLine = 3, EndLine = 4,
      Heading = ''A > B > C''\<rparr>,
    \<lparr>Content = ''## D\<newline>body of section D, long enough'', StartLine = 5, EndLine = 7,
      Heading = ''A > D''\<rparr>]"
  by code_simp

text \<open>
  Claim C3.  On a line that matches the heading pattern with a marker run of
  length \<open>L\<close>, the loop body first flushes the buffer: the chunks grow by at most
  the one chunk cut from the old buffer, and that chunk carries the breadcrumb
  that was current before the line.  The stack is then popped to a depth of at
  most \<open>L - 1\<close> (it becomes its first \<open>L - 1\<close> entries), the heading text is pushed,
  and the breadcrumb after the line is the stack joined by \<open>" > "\<close>.  On the
  headings \<open># A\<close>, \<open>## B\<close>, \<open>### C\<close>, \<open>## D\<close>, with a body under \<open>C\<close> and under \<open>D\<close>, the
  chunks carry \<open>A > B > C\<close> and then \<open>A > D\<close>.
\<close>

theorem heading_line_unwinds_stack:
  "(\<forall>s line hashes t. headingMatch line = Some (hashes, t) \<longrightarrow>
      chunks (onHeading s hashes t) = chunks s @
        (if 20 < length (TrimSpace (currentChunk s))
         then [\<lparr>Content = TrimSpace (currentChunk s), StartLine = startLine s,
                EndLine = currentLine s - 1, Heading = currentHeading s\<rparr>]
         else []) \<and>
      length (popStack (length hashes) (headingStack s)) \<le> length hashes - 1 \<and>
      headingStack (scanLine s line) = take (length hashes - 1) (headingStack s) @ [t] \<and>
      currentHeading (scanLine s line) = Join (headingStack (scanLine s line)) '' > '') \<and>
   map Heading (chunkMarkdown
     ''# A\<newline>## B\<newline>### C\<newline>body of section C, long enough\<newline>## D\<newline>body of section D, long enough\<newline>'')
     = [''A > B > C'', ''A > D'']"
proof -
  have "chunks (onHeading s hashes t) = chunks s @
        (if 20 < length (TrimSpace (currentChunk s))
         then [\<lparr>Content = TrimSpace (currentChunk s), StartLine = startLine s,
                EndLine = currentLine s - 1, Heading = currentHeading s\<rparr>]
         else [])" for s hashes t
    by (simp only: chunks_onHeading chunks_flushChunk)
  moreover have "length (popStack (length hashes) (headingStack s)) \<le> length hashes - 1"
    for s :: scan and hashes :: string
    by (simp add: popStack_take)
  ultimately show ?thesis
    by (simp add: scanLine_heading nesting_example)
qed

theorem heading_line_unwinds_stack_witness:
  "headingMatch ''## D'' = Some (''##'', ''D'') \<and>
   headingStack (scanLine (scan0\<lparr>headingStack := [''A'', ''B'', ''C''],
      currentHeading := ''A > B > C''\<rparr>) ''## D'') = [''A'', ''D''] \<and>
   currentHeading (scanLine (scan0\<lparr>headingStack := [''A'', ''B'', ''C''],
      currentHeading := ''A > B > C''\<rparr>) ''## D'') = ''A > D''"
proof -
  have m: "headingMatch ''## D'' = Some (''##'', ''D'')"
    by (simp add: headingMatch_def reSpace_def newline_def Let_def)
  from heading_line_unwinds_stack m
  have "headingStack (scanLine s ''## D'') = take (length ''##'' - 1) (headingStack s) @ [''D''] \<and>
        currentHeading (scanLine s ''## D'') = Join (headingStack (scanLine s ''## D'')) '' > ''"
    for s
    by blast
  with m show ?thesis by (simp add: scan0_def)
qed

subsection \<open>Line ranges\<close>

text \<open>
  Claim C4, at a one-line document whose only line is 2000 bytes long.  The
  line and its line feed make a buffer of 2001 bytes, over the budget of 2000, so
  the buffer is flushed inside the iteration for line 1, before \<open>currentLine\<close> is
  advanced: the chunk holds line 1 and is given the range 1 to 0.
\<close>

theorem chunkMarkdown_single_long_line:
  "chunkMarkdown (replicate 2000 CHR ''x'') =
     [\<lparr>Content = replicate 2000 CHR ''x'', StartLine = 1, EndLine = 0, Heading = []\<rparr>]"
proof -
  let ?l = "replicate 2000 CHR ''x''"
  have sp: "Split ?l = [?l]"
    unfolding Split_def by (rule splitOn_no_sep) (simp add: newline_def)
  have hm: "headingMatch ?l = None"
    by (simp add: headingMatch_def Let_def)
  have tr: "TrimSpace (?l @ [newline]) = ?l"
    by (rule TrimSpace_tail) (simp_all add: isSpace_def newline_def)
  show ?thesis
    by (simp add: chunkMarkdown_def sp hm tr scanLine_def scan0_def flushChunk_def Let_def
        maxChunkTokens_def avgCharsPerToken_def TrimSpace_Nil)
qed

text \<open>
  Claim C5, at a two-line document: a first line of 2000 bytes and a second,
  short line.  The flush for the budget happens after line 1 was appended, and
  records \<open>currentLine - 1 = 0\<close> as the end line; it then sets the start line of the
  next buffer to 1, although that buffer begins to fill with line 2.
\<close>

theorem chunkMarkdown_budget_flush_lines:
  "chunkMarkdown (replicate 2000 CHR ''x'' @ newline # ''second line with enough text'') =
     [\<lparr>Content = replicate 2000 CHR ''x'', StartLine = 1, EndLine = 0, Heading = []\<rparr>,
      \<lparr>Content = ''second line with enough text'', StartLine = 1, EndLine = 2,
        Heading = []\<rparr>]"
proof -
  let ?l = "replicate 2000 CHR ''x''"
  let ?m = "''second line with enough text''"
  have sp: "Split (?l @ newline # ?m) = [?l, ?m]"
    unfolding Split_def by (subst splitOn_append_sep) (simp_all add: newline_def)
  have hm: "headingMatch ?l = None" "headingMatch ?m = None"
    by (simp_all add: headingMatch_def Let_def)
  have tr: "TrimSpace (?l @ [newline]) = ?l"
    by (rule TrimSpace_tail) (simp_all add: isSpace_def newline_def)
  have tr2: "TrimSpace (?m @ [newline]) = ?m"
    by (rule TrimSpace_tail) (simp_all add: isSpace_def newline_def)
  show ?thesis
    by (simp add: chunkMarkdown_def sp hm tr tr2 [simplified] scanLine_def scan0_def
        flushChunk_def Let_def maxChunkTokens_def avgCharsPerToken_def TrimSpace_Nil)
qed

text \<open>
  What holds of the ranges for every input: each chunk starts after the chunk
  before it ends, starts at line 1 or later, and ends no earlier than the line
  before its start.
\<close>

definition scan_inv :: "scan \<Rightarrow> bool" where
  "scan_inv s \<longleftrightarrow>
     sorted_wrt (\<lambda>a b. EndLine a < StartLine b) (chunks s) \<and>
     list_all (\<lambda>c. EndLine c < startLine s \<and> 1 \<le> StartLine c \<and> StartLine c \<le> EndLine c + 1)
       (chunks s) \<and>
     1 \<le> startLine s \<and> startLine s \<le> currentLine s"

lemma scan_inv_flush: "scan_inv s \<Longrightarrow> scan_inv (flushChunk s)"
  by (auto simp: scan_inv_def flushChunk_def Let_def sorted_wrt_append list_all_iff)

lemma scan_inv_scanLine: "scan_inv s \<Longrightarrow> scan_inv (scanLine s line)"
  by (auto simp: scan_inv_def scanLine_def onHeading_def flushChunk_def Let_def
      sorted_wrt_append list_all_iff split: option.splits)

lemma scan_inv_foldl: "scan_inv s \<Longrightarrow> scan_inv (foldl scanLine s ls)"
  by (induction ls arbitrary: s) (auto simp: scan_inv_scanLine)

lemma chunkMarkdown_ranges_ascend:
  "sorted_wrt (\<lambda>a b. EndLine a < StartLine b) (chunkMarkdown input) \<and>
   list_all (\<lambda>c. 1 \<le> StartLine c \<and> StartLine c \<le> EndLine c + 1) (chunkMarkdown input)"
proof -
  have "scan_inv scan0" by (simp add: scan_inv_def scan0_def)
  then have "scan_inv (flushChunk (foldl scanLine scan0 (Split input)))"
    by (intro scan_inv_flush scan_inv_foldl)
  then show ?thesis
    by (auto simp: chunkMarkdown_def scan_inv_def list_all_iff)
qed

section \<open>Properties of the search\<close>

lemma rankFrom_eq:
  "rankFrom cs i rrs =
     (case find (\<lambda>rr. \<not> inRange cs rr) rrs of
        None \<Rightarrow> Ok (map (\<lambda>(k, rr). resultOf k rr (cs ! nat (rr_Index rr)))
                     (zip [i..<i + length rrs] rrs))
      | Some rr \<Rightarrow> Panic (IndexOutOfRange (rr_Index rr) (length cs)))"
proof (induction rrs arbitrary: i)
  case Nil
  show ?case by simp
next
  case (Cons rr rrs)
  show ?case
    by (simp add: Cons.IH [of "Suc i"] inRange_def upt_conv_Cons del: upt_Suc
        split: option.splits)
qed

lemma rankFrom_Ok:
  assumes "rankFrom cs i rrs = Ok rs"
  shows "length rs = length rrs"
    and "k < length rrs \<Longrightarrow> rs ! k = resultOf (i + k) (rrs ! k) (cs ! nat (rr_Index (rrs ! k)))"
    and "rr \<in> set rrs \<Longrightarrow> inRange cs rr"
proof -
  from assms have f: "find (\<lambda>rr. \<not> inRange cs rr) rrs = None"
    and rs: "rs = map (\<lambda>(k, rr). resultOf k rr (cs ! nat (rr_Index rr))) (zip [i..<i + length rrs] rrs)"
    by (auto simp: rankFrom_eq split: option.splits)
  show "length rs = length rrs" by (simp add: rs)
  show "rs ! k = resultOf (i + k) (rrs ! k) (cs ! nat (rr_Index (rrs ! k)))" if "k < length rrs"
    using that by (simp add: rs)
  show "inRange cs rr" if "rr \<in> set rrs"
    using f that by (auto simp: find_None_iff)
qed

lemma rankFrom_distance:
  "rankFrom (map (\<lambda>c. c\<lparr>cand_Distance := d c\<rparr>) cs) i rrs = rankFrom cs i rrs"
proof (induction rrs arbitrary: i)
  case Nil
  show ?case by simp
next
  case (Cons rr rrs)
  have "map (\<lambda>c. c\<lparr>cand_Distance := d c\<rparr>) cs ! nat (rr_Index rr) =
        (cs ! nat (rr_Index rr))\<lparr>cand_Distance := d (cs ! nat (rr_Index rr))\<rparr>"
    if "0 \<le> rr_Index rr" "rr_Index rr < int (length cs)"
    using that by (simp add: nat_less_iff)
  then show ?case
    by (auto simp add: Cons.IH resultOf_def split: result.splits)
qed

lemma rankFrom_Panic_iff:
  "(\<exists>x. rankFrom cs i rrs = Panic x) \<longleftrightarrow> (\<exists>rr\<in>set rrs. \<not> inRange cs rr)"
  by (auto simp: rankFrom_eq find_None_iff find_Some_iff split: option.splits)

lemma Search_reaches:
  assumes "EmbedQuery E q w = (Ok queryEmb, w1)"
    and "SerializeFloat32 E queryEmb = Inr embBytes"
    and "SearchSimilar E embBytes vectorSearchLimit w1 = (Ok candidates, w2)"
    and "candidates \<noteq> []"
    and "Rerank E q (map cand_Content candidates) rerankTopN w2 = (Ok rerankResults, w3)"
  shows "Search E q w = (rankFrom candidates 0 rerankResults, w3)"
  using assms by (simp add: Search_def)

lemma demo_search_steps:
  "EmbedQuery demoEnv ''notes'' world0 = (Ok [1], snd (EmbedQuery demoEnv ''notes'' world0))"
  "SerializeFloat32 demoEnv [1] = Inr [0]"
  "SearchSimilar demoEnv [0] vectorSearchLimit (snd (EmbedQuery demoEnv ''notes'' world0)) =
     (Ok demoCandidates,
      snd (SearchSimilar demoEnv [0] vectorSearchLimit (snd (EmbedQuery demoEnv ''notes'' world0))))"
  "demoCandidates \<noteq> []"
  by (simp_all add: prod_eq_iff EmbedQuery_def embed_def demoEnv_def world0_def
      float64sToFloat32s_def SearchSimilar_def query_def demoCandidates_def)

lemma demo_rerank_step:
  "Rerank demoEnv ''notes'' (map cand_Content demoCandidates) rerankTopN w =
     (Ok [\<lparr>rr_Index = 2, rr_Score = 9/10\<rparr>, \<lparr>rr_Index = 0, rr_Score = 1/2\<rparr>],
      snd (Rerank demoEnv ''notes'' (map cand_Content demoCandidates) rerankTopN w))"
  by (simp add: prod_eq_iff Rerank_def demoEnv_def demoCandidates_def)

text \<open>
  Claim C1.  Suppose the query was embedded, the similarity search returned the
  non-empty list \<open>candidates\<close>, the rerank call returned \<open>rerankResults\<close>, and \<open>Search\<close>
  returns \<open>results\<close>.  Then \<open>results\<close> has one element for each rerank selection; the
  i-th element (from 0) has rank \<open>i + 1\<close>, the score of the i-th selection and the
  fields of the candidate at the index of that selection.  The distances do not
  enter: with any other distances on the candidates the loop returns the same
  results.  A candidate whose position no selection names has no result (chunk
  ids are the primary key of their table, so distinct).
\<close>

theorem Search_results_follow_rerank:
  assumes "EmbedQuery E q w = (Ok queryEmb, w1)"
    and "SerializeFloat32 E queryEmb = Inr embBytes"
    and "SearchSimilar E embBytes vectorSearchLimit w1 = (Ok candidates, w2)"
    and "candidates \<noteq> []"
    and "Rerank E q (map cand_Content candidates) rerankTopN w2 = (Ok rerankResults, w3)"
    and "Search E q w = (Ok results, w')"
  shows "length results = length rerankResults \<and>
    (\<forall>i<length rerankResults.
       0 \<le> rr_Index (rerankResults ! i) \<and> rr_Index (rerankResults ! i) < int (length candidates) \<and>
       results ! i =
         (let rr = rerankResults ! i; c = candidates ! nat (rr_Index rr)
          in \<lparr>res_Rank = int i + 1, res_Score = rr_Score rr, res_Path = cand_Path c,
              res_Heading = cand_Heading c, res_Content = cand_Content c,
              res_StartLine = cand_StartLine c, res_EndLine = cand_EndLine c,
              res_DocID = cand_DocID c, res_ChunkID = cand_ID c\<rparr>)) \<and>
    (\<forall>d. rankFrom (map (\<lambda>c. c\<lparr>cand_Distance := d c\<rparr>) candidates) 0 rerankResults = Ok results) \<and>
    (distinct (map cand_ID candidates) \<longrightarrow>
       (\<forall>j<length candidates. int j \<notin> rr_Index ` set rerankResults \<longrightarrow>
          cand_ID (candidates ! j) \<notin> res_ChunkID ` set results))"
proof -
  from Search_reaches [OF assms(1-5)] assms(6)
  have rk: "rankFrom candidates 0 rerankResults = Ok results" by simp
  note ok = rankFrom_Ok [OF rk]
  have len: "length results = length rerankResults" by (rule ok(1))
  have nth: "results ! i = resultOf i (rerankResults ! i)
                 (candidates ! nat (rr_Index (rerankResults ! i)))"
    if "i < length rerankResults" for i
    using ok(2) [OF that] by simp
  have rng: "0 \<le> rr_Index (rerankResults ! i) \<and>
             rr_Index (rerankResults ! i) < int (length candidates)"
    if "i < length rerankResults" for i
    using ok(3) [of "rerankResults ! i"] that by (simp add: inRange_def)
  have absent: "cand_ID (candidates ! j) \<notin> res_ChunkID ` set results"
    if d: "distinct (map cand_ID candidates)" and j: "j < length candidates"
      and nj: "int j \<notin> rr_Index ` set rerankResults" for j
  proof
    assume "cand_ID (candidates ! j) \<in> res_ChunkID ` set results"
    then obtain i where i: "i < length results"
      and e: "cand_ID (candidates ! j) = res_ChunkID (results ! i)"
      by (auto simp: in_set_conv_nth)
    let ?k = "nat (rr_Index (rerankResults ! i))"
    from i len have i': "i < length rerankResults" by simp
    from rng [OF i'] have k: "?k < length candidates" by (simp add: nat_less_iff)
    from e nth [OF i'] have "cand_ID (candidates ! j) = cand_ID (candidates ! ?k)"
      by (simp add: resultOf_def)
    with d j k have "j = ?k"
      by (simp add: distinct_conv_nth) (metis length_map nth_map)
    with rng [OF i'] have "int j = rr_Index (rerankResults ! i)" by simp
    with nj i' show False by (metis image_eqI nth_mem)
  qed
  show ?thesis
    using len nth rng absent rk
    by (simp add: rankFrom_distance resultOf_def Let_def)
qed

theorem Search_results_follow_rerank_witness:
  "\<exists>results w'. Search demoEnv ''notes'' world0 = (Ok results, w') \<and>
     length results = 2 \<and>
     results ! 0 = \<lparr>res_Rank = 1, res_Score = 9/10, res_Path = ''b.md'', res_Heading = ''H2'',
       res_Content = ''c2'', res_StartLine = 1, res_EndLine = 9, res_DocID = 2,
       res_ChunkID = 12\<rparr> \<and>
     results ! 1 = \<lparr>res_Rank = 2, res_Score = 1/2, res_Path = ''a.md'', res_Heading = ''H0'',
       res_Content = ''c0'', res_StartLine = 1, res_EndLine = 2, res_DocID = 1,
       res_ChunkID = 10\<rparr> \<and>
     11 \<notin> res_ChunkID ` set results"
proof -
  let ?rr = "[\<lparr>rr_Index = 2, rr_Score = 9/10\<rparr>, \<lparr>rr_Index = 0, rr_Score = 1/2\<rparr>]"
  obtain results w' where s: "Search demoEnv ''notes'' world0 = (Ok results, w')"
    by (simp add: Search_reaches [OF demo_search_steps demo_rerank_step] demoCandidates_def)
  note t = Search_results_follow_rerank [OF demo_search_steps demo_rerank_step s]
  from t have len: "length results = 2" by simp
  from t have n0: "results ! 0 = (let rr = ?rr ! 0; c = demoCandidates ! nat (rr_Index rr)
          in \<lparr>res_Rank = int 0 + 1, res_Score = rr_Score rr, res_Path = cand_Path c,
              res_Heading = cand_Heading c, res_Content = cand_Content c,
              res_StartLine = cand_StartLine c, res_EndLine = cand_EndLine c,
              res_DocID = cand_DocID c, res_ChunkID = cand_ID c\<rparr>)"
    by simp
  from t have n1: "results ! 1 = (let rr = ?rr ! 1; c = demoCandidates ! nat (rr_Index rr)
          in \<lparr>res_Rank = int 1 + 1, res_Score = rr_Score rr, res_Path = cand_Path c,
              res_Heading = cand_Heading c, res_Content = cand_Content c,
              res_StartLine = cand_StartLine c, res_EndLine = cand_EndLine c,
              res_DocID = cand_DocID c, res_ChunkID = cand_ID c\<rparr>)"
    by simp
  from t have "distinct (map cand_ID demoCandidates) \<longrightarrow>
       (\<forall>j<length demoCandidates. int j \<notin> rr_Index ` set ?rr \<longrightarrow>
          cand_ID (demoCandidates ! j) \<notin> res_ChunkID ` set results)"
    by blast
  moreover have "distinct (map cand_ID demoCandidates)" "1 < length demoCandidates"
    "int 1 \<notin> rr_Index ` set ?rr"
    by (simp_all add: demoCandidates_def)
  ultimately have "cand_ID (demoCandidates ! 1) \<notin> res_ChunkID ` set results"
    by blast
  then have ab: "11 \<notin> res_ChunkID ` set results"
    by (simp add: demoCandidates_def)
  from s len n0 n1 ab show ?thesis
    by (simp add: demoCandidates_def)
qed

text \<open>
  Claim C10.  After a rerank call that succeeded, \<open>Search\<close> reads
  \<open>candidates[rr.Index]\<close> for every selection; the selections are the provider's,
  index for index.  If every index is at least 0 and below the number of
  candidates, \<open>Search\<close> returns results; if some index is not, \<open>Search\<close> panics with
  an index out of range.
\<close>

theorem Search_candidate_index_unchecked:
  assumes "EmbedQuery E q w = (Ok queryEmb, w1)"
    and "SerializeFloat32 E queryEmb = Inr embBytes"
    and "SearchSimilar E embBytes vectorSearchLimit w1 = (Ok candidates, w2)"
    and "candidates \<noteq> []"
    and "Rerank E q (map cand_Content candidates) rerankTopN w2 = (Ok rerankResults, w3)"
  shows "((\<forall>rr\<in>set rerankResults. 0 \<le> rr_Index rr \<and> rr_Index rr < int (length candidates)) \<longrightarrow>
            (\<exists>results. fst (Search E q w) = Ok results)) \<and>
         ((\<exists>rr\<in>set rerankResults. \<not> (0 \<le> rr_Index rr \<and> rr_Index rr < int (length candidates))) \<longrightarrow>
            (\<exists>bad\<in>set rerankResults.
               \<not> (0 \<le> rr_Index bad \<and> rr_Index bad < int (length candidates)) \<and>
               fst (Search E q w) = Panic (IndexOutOfRange (rr_Index bad) (length candidates)))) \<and>
         (\<forall>rs. V2Rerank E (length (rerankRequests w2)) q (map cand_Content candidates) rerankTopN
                 = Inr rs \<longrightarrow>
               rerankResults = map (\<lambda>r. \<lparr>rr_Index = fst r, rr_Score = snd r\<rparr>) rs)"
proof -
  have s: "fst (Search E q w) = rankFrom candidates 0 rerankResults"
    by (simp add: Search_reaches [OF assms])
  have a: "(\<forall>rr\<in>set rerankResults. 0 \<le> rr_Index rr \<and> rr_Index rr < int (length candidates)) \<longrightarrow>
            (\<exists>results. fst (Search E q w) = Ok results)"
    unfolding s
    by (auto simp: rankFrom_eq inRange_def find_None_iff find_Some_iff split: option.splits)
  have b: "(\<exists>rr\<in>set rerankResults. \<not> (0 \<le> rr_Index rr \<and> rr_Index rr < int (length candidates))) \<longrightarrow>
            (\<exists>bad\<in>set rerankResults.
               \<not> (0 \<le> rr_Index bad \<and> rr_Index bad < int (length candidates)) \<and>
               fst (Search E q w) = Panic (IndexOutOfRange (rr_Index bad) (length candidates)))"
    unfolding s
    by (auto simp: rankFrom_eq inRange_def find_None_iff find_Some_iff split: option.splits)
  have c: "rerankResults = map (\<lambda>r. \<lparr>rr_Index = fst r, rr_Score = snd r\<rparr>) rs"
    if "V2Rerank E (length (rerankRequests w2)) q (map cand_Content candidates) rerankTopN = Inr rs"
    for rs
    using assms(4,5) that by (simp add: Rerank_def Let_def)
  from a b c show ?thesis by blast
qed

lemma demoBad_search_steps:
  "EmbedQuery demoEnvBadIndex ''notes'' world0 =
     (Ok [1], snd (EmbedQuery demoEnvBadIndex ''notes'' world0))"
  "SerializeFloat32 demoEnvBadIndex [1] = Inr [0]"
  "SearchSimilar demoEnvBadIndex [0] vectorSearchLimit
       (snd (EmbedQuery demoEnvBadIndex ''notes'' world0)) =
     (Ok demoCandidates,
      snd (SearchSimilar demoEnvBadIndex [0] vectorSearchLimit
         (snd (EmbedQuery demoEnvBadIndex ''notes'' world0))))"
  "demoCandidates \<noteq> []"
  by (simp_all add: prod_eq_iff EmbedQuery_def embed_def demoEnv_def demoEnvBadIndex_def
      world0_def float64sToFloat32s_def SearchSimilar_def query_def demoCandidates_def)

lemma demoBad_rerank_step:
  "Rerank demoEnvBadIndex ''notes'' (map cand_Content demoCandidates) rerankTopN w =
     (Ok [\<lparr>rr_Index = 0, rr_Score = 9/10\<rparr>, \<lparr>rr_Index = 3, rr_Score = 1/2\<rparr>],
      snd (Rerank demoEnvBadIndex ''notes'' (map cand_Content demoCandidates) rerankTopN w))"
  by (simp add: prod_eq_iff Rerank_def demoEnv_def demoEnvBadIndex_def demoCandidates_def)

theorem Search_candidate_index_unchecked_witness:
  "fst (Search demoEnvBadIndex ''notes'' world0) = Panic (IndexOutOfRange 3 3) \<and>
   (\<exists>results. fst (Search demoEnv ''notes'' world0) = Ok results)"
proof -
  note bad = Search_candidate_index_unchecked [OF demoBad_search_steps demoBad_rerank_step]
  note good = Search_candidate_index_unchecked [OF demo_search_steps demo_rerank_step]
  from bad have "fst (Search demoEnvBadIndex ''notes'' world0) = Panic (IndexOutOfRange 3 3)"
    by (simp add: demoCandidates_def)
  moreover from good have "\<exists>results. fst (Search demoEnv ''notes'' world0) = Ok results"
    by (simp add: demoCandidates_def)
  ultimately show ?thesis by simp
qed

section \<open>Properties of the watcher\<close>

lemma handleEvent_write:
  assumes "HasSuffix (ToLower (Name ev)) ''.md''" "Rel (dir E) (Name ev) = Inr p"
    "\<not> HasPrefix p ''.''" "Op ev AND Write = Write \<or> Op ev AND Create = Create"
  shows "handleEvent E ev t (pend, w) = (AList.update p t pend, w)"
  using assms by (simp add: handleEvent_def)

lemma handleEvent_only_markdown:
  "\<not> HasSuffix (ToLower (Name ev)) ''.md'' \<Longrightarrow> handleEvent E ev t pw = pw"
  by (simp add: handleEvent_def)

lemma handleAll_writes:
  assumes "writes E p events" "\<not> HasPrefix p ''.''" "distinct (map fst pend)"
  shows "snd (handleAll E events (pend, w)) = w \<and>
         distinct (map fst (fst (handleAll E events (pend, w)))) \<and>
         map_of (fst (handleAll E events (pend, w))) =
           (if events = [] then map_of pend else (map_of pend)(p \<mapsto> snd (last events)))"
  using assms(1)
proof (induction events rule: rev_induct)
  case Nil
  show ?case using assms(3) by (simp add: handleAll_def)
next
  case (snoc e es)
  from snoc.prems have es: "writes E p es"
    and e: "HasSuffix (ToLower (Name (fst e))) ''.md''" "Rel (dir E) (Name (fst e)) = Inr p"
       "Op (fst e) AND Write = Write \<or> Op (fst e) AND Create = Create"
    by (simp_all add: writes_def)
  note ih = snoc.IH [OF es]
  obtain pend1 where p1: "handleAll E es (pend, w) = (pend1, w)"
    using ih by (cases "handleAll E es (pend, w)") auto
  have step: "handleAll E (es @ [e]) (pend, w) = (AList.update p (snd e) pend1, w)"
    by (simp add: handleAll_def p1 [unfolded handleAll_def] handleEvent_write [OF e(1,2) assms(2) e(3)])
  from ih p1 show ?case
    by (auto simp: step distinct_update update_conv)
qed

lemma count_key_distinct:
  "distinct (map fst al) \<Longrightarrow> map_of al p = Some t \<Longrightarrow>
     filter (\<lambda>e. fst e = p) al = [(p, t)]"
proof (induction al)
  case Nil
  then show ?case by simp
next
  case (Cons a al)
  show ?case
  proof (cases "fst a = p")
    case True
    with Cons.prems have "p \<notin> fst ` set al" "a = (p, t)" by (auto simp: prod_eq_iff)
    then have "filter (\<lambda>e. fst e = p) al = []" by (auto simp: filter_empty_conv)
    with True \<open>a = (p, t)\<close> show ?thesis by simp
  next
    case False
    with Cons show ?thesis by (cases a) auto
  qed
qed

lemma toIndex_count:
  assumes "distinct (map fst al)" "map_of al p = Some t"
  shows "count_list (toIndex now al) p = (if debounceDelay \<le> now - t then 1 else 0)"
proof -
  have "count_list (map fst (filter P al)) p = length (filter P (filter (\<lambda>e. fst e = p) al))"
    for P
    by (induction al) auto
  then show ?thesis
    by (simp add: toIndex_def count_key_distinct [OF assms])
qed

lemma map_of_fold_delete:
  "map_of (fold AList.delete ks al) q = (if q \<in> set ks then None else map_of al q)"
  by (induction ks arbitrary: al) (auto simp: delete_conv)

lemma indexEach_calls:
  "indexEach E paths w = (calls, w') \<Longrightarrow>
     (\<exists>n. map fst calls = take n paths) \<and>
     ((\<forall>c\<in>set calls. \<forall>x. snd c \<noteq> Panic x) \<longrightarrow> map fst calls = paths)"
proof (induction paths arbitrary: w calls w')
  case Nil
  then show ?case by simp
next
  case (Cons a paths)
  obtain r w1 where r: "indexFile E a w = (r, w1)" by (cases "indexFile E a w") auto
  show ?case
  proof (cases "\<exists>x. r = Panic x")
    case True
    with Cons.prems r have "calls = [(a, r)]" by auto
    with True show ?thesis by (auto intro: exI [of _ 1])
  next
    case False
    obtain rs w2 where rs: "indexEach E paths w1 = (rs, w2)" by (cases "indexEach E paths w1") auto
    from False Cons.prems r rs have c: "calls = (a, r) # rs"
      by (cases r) auto
    from Cons.IH [OF rs] obtain n where n: "map fst rs = take n paths"
      and full: "(\<forall>c\<in>set rs. \<forall>x. snd c \<noteq> Panic x) \<longrightarrow> map fst rs = paths" by blast
    from n have "map fst calls = take (Suc n) (a # paths)" by (simp add: c)
    with full c show ?thesis by (auto simp del: take_Suc_Cons intro: exI [of _ "Suc n"])
  qed
qed

lemma count_list_take_le: "count_list (take n xs) p \<le> count_list xs p"
proof (induction xs arbitrary: n)
  case Nil
  show ?case by simp
next
  case (Cons a xs)
  show ?case using Cons [of "n - 1"] by (cases n) auto
qed

text \<open>
  Claim C7.  Take any number (at least one) of create or write events that the
  handler admits for the path \<open>p\<close>, handled in turn, each at its own time, from a
  pending map that has one entry for each key.  The store is not touched; the map
  then holds exactly one entry for \<open>p\<close>, with the time of the last event, and the
  entries of the other paths are as before.  A sweep earlier than the debounce
  delay after the last event makes no call for \<open>p\<close> and leaves the entry.  A sweep
  at or after the delay (so also any sweep later than it) takes \<open>p\<close> out of the
  map and puts it on \<open>toIndex\<close> exactly once, and \<open>indexFile\<close> is called for every
  element of \<open>toIndex\<close> in turn: once for \<open>p\<close>, unless a call for a path before it
  panics and ends the program.
\<close>

theorem debounce_single_reindex:
  assumes "writes E p events" and "events \<noteq> []" and "\<not> HasPrefix p ''.''"
    and "distinct (map fst pend)"
  shows "snd (handleAll E events (pend, w)) = w \<and>
     filter (\<lambda>e. fst e = p) (fst (handleAll E events (pend, w))) = [(p, snd (last events))] \<and>
     (\<forall>q. q \<noteq> p \<longrightarrow> map_of (fst (handleAll E events (pend, w))) q = map_of pend q) \<and>
     (\<forall>now calls pend' w'.
        indexPendingFiles E now (handleAll E events (pend, w)) = (calls, pend', w') \<longrightarrow>
        (now - snd (last events) < debounceDelay \<longrightarrow>
           p \<notin> set (map fst calls) \<and> map_of pend' p = Some (snd (last events))) \<and>
        (debounceDelay \<le> now - snd (last events) \<longrightarrow>
           p \<notin> set (map fst pend') \<and>
           count_list (toIndex now (fst (handleAll E events (pend, w)))) p = 1 \<and>
           count_list (map fst calls) p \<le> 1 \<and>
           ((\<forall>c\<in>set calls. \<forall>x. snd c \<noteq> Panic x) \<longrightarrow> count_list (map fst calls) p = 1)))"
proof -
  let ?pw = "handleAll E events (pend, w)"
  let ?t = "snd (last events)"
  note h = handleAll_writes [OF assms(1,3,4), of w]
  from h have w: "snd ?pw = w" and d: "distinct (map fst (fst ?pw))"
    and m: "map_of (fst ?pw) = (map_of pend)(p \<mapsto> ?t)"
    using assms(2) by simp_all
  from m have mp: "map_of (fst ?pw) p = Some ?t" by simp
  have one: "filter (\<lambda>e. fst e = p) (fst ?pw) = [(p, ?t)]"
    by (rule count_key_distinct [OF d mp])
  have others: "map_of (fst ?pw) q = map_of pend q" if "q \<noteq> p" for q
    using that by (simp add: m)
  have sweep: "(now - ?t < debounceDelay \<longrightarrow>
           p \<notin> set (map fst calls) \<and> map_of pend' p = Some ?t) \<and>
        (debounceDelay \<le> now - ?t \<longrightarrow>
           p \<notin> set (map fst pend') \<and>
           count_list (toIndex now (fst ?pw)) p = 1 \<and>
           count_list (map fst calls) p \<le> 1 \<and>
           ((\<forall>c\<in>set calls. \<forall>x. snd c \<noteq> Panic x) \<longrightarrow> count_list (map fst calls) p = 1))"
    if run: "indexPendingFiles E now ?pw = (calls, pend', w')" for now calls pend' w'
  proof -
    let ?paths = "toIndex now (fst ?pw)"
    from run have pend': "pend' = fold AList.delete ?paths (fst ?pw)"
      and ie: "indexEach E ?paths (snd ?pw) = (calls, w')"
      by (auto simp: indexPendingFiles_def Let_def split: prod.splits)
    note cnt = toIndex_count [OF d mp, of now]
    from indexEach_calls [OF ie] obtain n where n: "map fst calls = take n ?paths"
      and full: "(\<forall>c\<in>set calls. \<forall>x. snd c \<noteq> Panic x) \<longrightarrow> map fst calls = ?paths"
      by blast
    have le: "count_list (map fst calls) p \<le> count_list ?paths p"
      unfolding n by (rule count_list_take_le)
    have early: "p \<notin> set (map fst calls) \<and> map_of pend' p = Some ?t"
      if "now - ?t < debounceDelay"
    proof -
      from that cnt have z: "count_list ?paths p = 0" by simp
      then have np: "p \<notin> set ?paths" by (simp add: count_list_0_iff)
      from z le have "count_list (map fst calls) p = 0" by simp
      then have "p \<notin> set (map fst calls)" by (simp add: count_list_0_iff)
      moreover from np have "map_of pend' p = Some ?t"
        by (simp add: pend' map_of_fold_delete mp)
      ultimately show ?thesis by simp
    qed
    have late: "p \<notin> set (map fst pend') \<and> count_list ?paths p = 1 \<and>
           count_list (map fst calls) p \<le> 1 \<and>
           ((\<forall>c\<in>set calls. \<forall>x. snd c \<noteq> Panic x) \<longrightarrow> count_list (map fst calls) p = 1)"
      if "debounceDelay \<le> now - ?t"
    proof -
      from that cnt have c1: "count_list ?paths p = 1" by simp
      then have "p \<in> set ?paths" by (metis count_list_0_iff zero_neq_one)
      then have "map_of pend' p = None" by (simp add: pend' map_of_fold_delete)
      then have "p \<notin> set (map fst pend')" by (simp add: map_of_eq_None_iff)
      with c1 le full show ?thesis by auto
    qed
    from early late show ?thesis by blast
  qed
  from w one others sweep show ?thesis by blast
qed

lemma demoEvents_writes: "writes demoEnv ''a.md'' demoEvents"
  by code_simp

theorem debounce_single_reindex_witness:
  "filter (\<lambda>e. fst e = ''a.md'') (fst (handleAll demoEnv demoEvents ([], world0))) =
     [(''a.md'', 1500000000)] \<and>
   count_list (toIndex 3500000000 (fst (handleAll demoEnv demoEvents ([], world0)))) ''a.md'' = 1 \<and>
   (\<exists>calls pend' w'.
      indexPendingFiles demoEnv 3500000000 (handleAll demoEnv demoEvents ([], world0)) =
        (calls, pend', w') \<and>
      ''a.md'' \<notin> set (map fst pend') \<and> count_list (map fst calls) ''a.md'' \<le> 1)"
proof -
  have h: "demoEvents \<noteq> []" "\<not> HasPrefix ''a.md'' ''.''" "distinct (map fst ([] :: pendingMap))"
    by (simp_all add: demoEvents_def HasPrefix_def)
  note t = debounce_single_reindex [OF demoEvents_writes h, of world0]
  have l: "snd (last demoEvents) = 1500000000" by (simp add: demoEvents_def)
  obtain calls pend' w' where
    r: "indexPendingFiles demoEnv 3500000000 (handleAll demoEnv demoEvents ([], world0)) =
          (calls, pend', w')"
    by (metis prod_cases3)
  from t r have "debounceDelay \<le> 3500000000 - snd (last demoEvents) \<longrightarrow>
           ''a.md'' \<notin> set (map fst pend') \<and>
           count_list (toIndex 3500000000 (fst (handleAll demoEnv demoEvents ([], world0)))) ''a.md'' = 1 \<and>
           count_list (map fst calls) ''a.md'' \<le> 1"
    by blast
  then have s: "''a.md'' \<notin> set (map fst pend') \<and>
           count_list (toIndex 3500000000 (fst (handleAll demoEnv demoEvents ([], world0)))) ''a.md'' = 1 \<and>
           count_list (map fst calls) ''a.md'' \<le> 1"
    by (simp add: l debounceDelay_def)
  from t have "filter (\<lambda>e. fst e = ''a.md'') (fst (handleAll demoEnv demoEvents ([], world0))) =
     [(''a.md'', snd (last demoEvents))]"
    by blast
  with s r show ?thesis by (auto simp: l)
qed

text \<open>
  Claim C8.  The handler returns at once for a name without the extension
  \<open>.md\<close> (in any case of the letters), so only such files enter the map.  The
  test for hidden paths looks at the first byte of the relative path only: an
  event for a note in a hidden directory below the root, or for a hidden note in
  a directory below the root, is admitted; a hidden note in the root itself is
  ignored.
\<close>

theorem handleEvent_admits_hidden_component:
  "handleEvent demoEnv \<lparr>Name = ''/vault/notes/.drafts/idea.md'', Op = Write\<rparr> 5 ([], world0) =
     ([(''notes/.drafts/idea.md'', 5)], world0) \<and>
   handleEvent demoEnv \<lparr>Name = ''/vault/notes/.idea.md'', Op = Create\<rparr> 7 ([], world0) =
     ([(''notes/.idea.md'', 7)], world0) \<and>
   handleEvent demoEnv \<lparr>Name = ''/vault/.idea.md'', Op = Create\<rparr> 7 ([], world0) =
     ([], world0)"
  by code_simp

end
